theory Spec2Isabelle
  imports Main "HOL-Library.Word" "HOL-Library.AList"
begin

section \<open>JavaScript strings\<close>

text \<open>
  A JavaScript string is a sequence of UTF-16 code units; \<open>length\<close> counts code units,
  as \<^verbatim>\<open>String.prototype.length\<close> does. String literals of the source are ASCII and
  are written \<open>js ''...''\<close>.
\<close>

type_synonym cu = "16 word"
type_synonym jsstring = "cu list"

definition js :: "string \<Rightarrow> jsstring" where
  "js s = map of_char s"

text \<open>
  The code units removed by \<^verbatim>\<open>String.prototype.trim\<close> (WhiteSpace and LineTerminator of
  ECMAScript); the class \<^verbatim>\<open>\s\<close> of a regular expression without flags is the same set.
\<close>

definition isWhiteSpace :: "cu \<Rightarrow> bool" where
  "isWhiteSpace c \<longleftrightarrow>
     c \<in> {0x09, 0x0A, 0x0B, 0x0C, 0x0D, 0x20, 0xA0, 0x1680,
          0x2028, 0x2029, 0x202F, 0x205F, 0x3000, 0xFEFF}
     \<or> (0x2000 \<le> c \<and> c \<le> 0x200A)"

definition trim :: "jsstring \<Rightarrow> jsstring" where
  "trim s = rev (dropWhile isWhiteSpace (rev (dropWhile isWhiteSpace s)))"


section \<open>Document elements\<close>

text \<open>
  An element carries a class list and a text content. A tracked form control
  (an entry of \<^verbatim>\<open>formInputs\<close>) adds the properties that the script reads:
  \<^verbatim>\<open>name\<close>, \<^verbatim>\<open>value\<close>, the default value restored by \<^verbatim>\<open>form.reset()\<close>,
  \<^verbatim>\<open>hasAttribute('required')\<close>, \<^verbatim>\<open>type\<close> and \<^verbatim>\<open>tagName\<close>.
\<close>

record element =
  classList :: "jsstring set"
  textContent :: jsstring

record field = element +
  name :: jsstring
  fieldValue :: jsstring
  defaultValue :: jsstring
  required :: bool
  ftype :: jsstring
  tagName :: jsstring

record button = element +
  disabled :: bool

text \<open>\<^verbatim>\<open>classList.toggle(token, force)\<close>, \<^verbatim>\<open>classList.add\<close> and \<^verbatim>\<open>classList.remove\<close>.\<close>

definition toggle :: "jsstring \<Rightarrow> bool \<Rightarrow> jsstring set \<Rightarrow> jsstring set" where
  "toggle token force cl = (if force then insert token cl else cl - {token})"


section \<open>Form Validator\<close>

subsection \<open>The regular expression of the email rule\<close>

text \<open>
  \<^verbatim>\<open>/^[^\s@]+@[^\s@]+\.[^\s@]+$/\<close> is a sequence of single-character classes, each taken
  once or once-or-more, anchored at both ends. \<open>rmatch\<close> is the backtracking matcher for
  such a sequence: a \<^verbatim>\<open>+\<close> first tries to take one more character and otherwise goes on
  with the rest of the pattern; the empty pattern is the anchor \<^verbatim>\<open>$\<close>.
\<close>

datatype atom = One "cu \<Rightarrow> bool" | OneOrMore "cu \<Rightarrow> bool"

fun rmatch :: "atom list \<Rightarrow> jsstring \<Rightarrow> bool" where
  "rmatch [] s = (s = [])"
| "rmatch (One p # as) [] = False"
| "rmatch (One p # as) (c # cs) = (p c \<and> rmatch as cs)"
| "rmatch (OneOrMore p # as) [] = False"
| "rmatch (OneOrMore p # as) (c # cs) =
     (p c \<and> (rmatch (OneOrMore p # as) cs \<or> rmatch as cs))"

definition notSpaceOrAt :: "cu \<Rightarrow> bool" where
  "notSpaceOrAt c \<longleftrightarrow> \<not> isWhiteSpace c \<and> c \<noteq> 0x40"

definition emailRegex :: "atom list" where
  "emailRegex =
     [OneOrMore notSpaceOrAt, One (\<lambda>c. c = 0x40),
      OneOrMore notSpaceOrAt, One (\<lambda>c. c = 0x2E),
      OneOrMore notSpaceOrAt]"

definition emailRegex_test :: "jsstring \<Rightarrow> bool" where
  "emailRegex_test s = rmatch emailRegex s"

text \<open>
  The shape in the words of the specification: a local part, \<^verbatim>\<open>@\<close>, a domain, a dot
  and a last label, the three parts non-empty and free of whitespace and of \<^verbatim>\<open>@\<close>
  (a part may contain further dots).
\<close>

definition emailPart :: "jsstring \<Rightarrow> bool" where
  "emailPart u \<longleftrightarrow> u \<noteq> [] \<and> list_all (\<lambda>c. \<not> isWhiteSpace c \<and> c \<noteq> 0x40) u"

definition spec_email_shape :: "jsstring \<Rightarrow> bool" where
  "spec_email_shape s \<longleftrightarrow>
     (\<exists>localpart domain tld.
        s = localpart @ js ''@'' @ domain @ js ''.'' @ tld
        \<and> emailPart localpart \<and> emailPart domain \<and> emailPart tld)"

subsection \<open>validateField\<close>

definition REQUIRED_MESSAGE :: jsstring where
  "REQUIRED_MESSAGE = js ''This field is required.''"

definition EMAIL_MESSAGE :: jsstring where
  "EMAIL_MESSAGE = js ''Please enter a valid email address.''"

definition LENGTH_MESSAGE :: jsstring where
  "LENGTH_MESSAGE = js ''Please provide more details (at least 10 characters).''"

text \<open>
  The three rule blocks of \<^verbatim>\<open>validateField\<close>, in the order of the source, each one
  overwriting \<^verbatim>\<open>isValid\<close> and \<^verbatim>\<open>errorMessage\<close> when it fails. The result is the
  returned \<^verbatim>\<open>isValid\<close> and the message handed to \<^verbatim>\<open>showFieldError\<close>,
  \<^verbatim>\<open>isValid ? '' : errorMessage\<close>.
\<close>

definition validateField_rules :: "field \<Rightarrow> bool \<times> jsstring" where
  "validateField_rules fld =
     (let v = trim (fieldValue fld);
          (isValid, errorMessage) = (True, []);
          (isValid, errorMessage) =
            (if required fld \<and> v = [] then (False, REQUIRED_MESSAGE)
             else (isValid, errorMessage));
          (isValid, errorMessage) =
            (if ftype fld = js ''email'' \<and> v \<noteq> [] then
               (if \<not> emailRegex_test v then (False, EMAIL_MESSAGE)
                else (isValid, errorMessage))
             else (isValid, errorMessage));
          (isValid, errorMessage) =
            (if tagName fld = js ''TEXTAREA'' \<and> v \<noteq> [] \<and> length v < 10
             then (False, LENGTH_MESSAGE)
             else (isValid, errorMessage))
      in (isValid, if isValid then [] else errorMessage))"

text \<open>
  \<^verbatim>\<open>showFieldError\<close>: the message goes to the element with id \<^verbatim>\<open>name + '-error'\<close>
  when the document has one, and the field's own error class is toggled in any case.
\<close>

definition showFieldError ::
  "field \<Rightarrow> jsstring \<Rightarrow> (jsstring \<rightharpoonup> element) \<Rightarrow> field \<times> (jsstring \<rightharpoonup> element)" where
  "showFieldError fld message els =
     (let els' =
        (case els (name fld @ js ''-error'') of
           None \<Rightarrow> els
         | Some errorElement \<Rightarrow>
             els(name fld @ js ''-error'' \<mapsto>
               errorElement\<lparr>textContent := message,
                 classList := toggle (js ''form-error--show'') (message \<noteq> [])
                                (classList errorElement)\<rparr>))
      in (fld\<lparr>classList := toggle (js ''form-input--error'') (message \<noteq> [])
                              (classList fld)\<rparr>, els'))"

definition clearFieldError ::
  "field \<Rightarrow> (jsstring \<rightharpoonup> element) \<Rightarrow> field \<times> (jsstring \<rightharpoonup> element)" where
  "clearFieldError fld els = showFieldError fld [] els"

definition validateField ::
  "field \<Rightarrow> (jsstring \<rightharpoonup> element) \<Rightarrow> bool \<times> field \<times> (jsstring \<rightharpoonup> element)" where
  "validateField fld els =
     (let (isValid, message) = validateField_rules fld;
          (fld', els') = showFieldError fld message els
      in (isValid, fld', els'))"


subsection \<open>validateForm\<close>

text \<open>
  The page as the script sees it: the tracked controls \<^verbatim>\<open>formInputs\<close> in document
  order (they are the controls of the contact form), the elements reachable through
  \<^verbatim>\<open>getElementById\<close>, the submit control found by
  \<^verbatim>\<open>contactForm.querySelector('.form-submit')\<close>, the form's \<^verbatim>\<open>action\<close> and declared
  method, the local storage, the console, and the targets of \<^verbatim>\<open>scrollIntoView\<close>.
  Message regions are elements of their own, distinct from the tracked controls.
\<close>

datatype exn = TypeError | FetchRejected | SubmissionFailed

datatype log_entry = SubmissionError exn | LoadError

text \<open>
  The item of the local storage: the text written by \<^verbatim>\<open>JSON.stringify\<close> for an object
  whose values are strings, kept as the object that \<^verbatim>\<open>JSON.parse\<close> gives back for it
  (its own properties in order), or a text on which \<^verbatim>\<open>JSON.parse\<close> throws.
\<close>

datatype stored = Snapshot "(jsstring \<times> jsstring) list" | Unparseable jsstring

record page =
  formInputs :: "field list"
  elementsById :: "jsstring \<rightharpoonup> element"
  submitButton :: "button option"
  action :: jsstring
  formMethod :: jsstring
  localStorage :: "jsstring \<rightharpoonup> stored"
  console :: "log_entry list"
  scrolledIntoView :: "jsstring list"




section \<open>Form Persistence\<close>

definition STORAGE_KEY :: jsstring where
  "STORAGE_KEY = js ''contactFormData''"

text \<open>
  \<^verbatim>\<open>formData[key] = value\<close> on an object literal: an own property is created or
  overwritten in place, except for the key \<^verbatim>\<open>__proto__\<close>, whose inherited setter ignores
  a string. Only the lookup of a key and the number of keys are observed by the script.
\<close>

definition setProperty ::
  "jsstring \<Rightarrow> jsstring \<Rightarrow> (jsstring \<times> jsstring) list \<Rightarrow> (jsstring \<times> jsstring) list" where
  "setProperty key v obj = (if key = js ''__proto__'' then obj else AList.update key v obj)"

definition Object_keys :: "(jsstring \<times> jsstring) list \<Rightarrow> jsstring list" where
  "Object_keys obj = map fst obj"

text \<open>
  \<^verbatim>\<open>formData[key]\<close> on the parsed object: the own property, else a member inherited from
  \<^verbatim>\<open>Object.prototype\<close>, else \<^verbatim>\<open>undefined\<close>. An inherited member is truthy, and its
  conversion to a string is the engine's (the parameter \<open>nativeText\<close> below).
\<close>

datatype jsvalue = Undefined | String jsstring | Inherited jsstring

definition objectPrototypeNames :: "jsstring list" where
  "objectPrototypeNames =
     map js [''constructor'', ''__defineGetter__'', ''__defineSetter__'',
       ''hasOwnProperty'', ''__lookupGetter__'', ''__lookupSetter__'', ''isPrototypeOf'',
       ''propertyIsEnumerable'', ''toString'', ''valueOf'', ''__proto__'',
       ''toLocaleString'']"

definition getProperty :: "(jsstring \<times> jsstring) list \<Rightarrow> jsstring \<Rightarrow> jsvalue" where
  "getProperty obj key =
     (case map_of obj key of
        Some v \<Rightarrow> String v
      | None \<Rightarrow> if key \<in> set objectPrototypeNames then Inherited key else Undefined)"

fun truthy :: "jsvalue \<Rightarrow> bool" where
  "truthy Undefined = False"
| "truthy (String s) = (s \<noteq> [])"
| "truthy (Inherited key) = True"

fun toDOMString :: "(jsstring \<Rightarrow> jsstring) \<Rightarrow> jsvalue \<Rightarrow> jsstring" where
  "toDOMString nativeText Undefined = js ''undefined''"
| "toDOMString nativeText (String s) = s"
| "toDOMString nativeText (Inherited key) = nativeText key"

text \<open>
  The body of the \<^verbatim>\<open>forEach\<close> of \<^verbatim>\<open>saveFormData\<close>, and the function. The write to the
  storage is taken to succeed.
\<close>

definition saveFormData_body ::
  "field \<Rightarrow> (jsstring \<times> jsstring) list \<Rightarrow> (jsstring \<times> jsstring) list" where
  "saveFormData_body input formData =
     (if trim (fieldValue input) \<noteq> []
      then setProperty (name input) (fieldValue input) formData
      else formData)"

definition saveFormData :: "page \<Rightarrow> page" where
  "saveFormData p =
     (let formData = fold saveFormData_body (formInputs p) []
      in if length (Object_keys formData) > 0
         then p\<lparr>localStorage := (localStorage p)(STORAGE_KEY \<mapsto> Snapshot formData)\<rparr>
         else p)"

text \<open>
  The body of the \<^verbatim>\<open>forEach\<close> of \<^verbatim>\<open>loadFormData\<close>, and the function. The assignment to
  \<^verbatim>\<open>input.value\<close> is taken to store the string as it is.
\<close>

definition restoreField ::
  "(jsstring \<Rightarrow> jsstring) \<Rightarrow> (jsstring \<times> jsstring) list \<Rightarrow> field \<Rightarrow> field" where
  "restoreField nativeText formData input =
     (if truthy (getProperty formData (name input))
      then input\<lparr>fieldValue := toDOMString nativeText (getProperty formData (name input))\<rparr>
      else input)"

definition loadFormData :: "(jsstring \<Rightarrow> jsstring) \<Rightarrow> page \<Rightarrow> page" where
  "loadFormData nativeText p =
     (case localStorage p STORAGE_KEY of
        None \<Rightarrow> p
      | Some (Unparseable text) \<Rightarrow>
          if text = [] then p else p\<lparr>console := console p @ [LoadError]\<rparr>
      | Some (Snapshot formData) \<Rightarrow>
          p\<lparr>formInputs := map (restoreField nativeText formData) (formInputs p)\<rparr>)"

definition clearFormStorage :: "page \<Rightarrow> page" where
  "clearFormStorage p = p\<lparr>localStorage := (localStorage p)(STORAGE_KEY := None)\<rparr>"


section \<open>Form Submitter\<close>

text \<open>
  A request as \<^verbatim>\<open>fetch\<close> receives it. The body is the entry list of
  \<^verbatim>\<open>new FormData(contactForm)\<close>, which \<^verbatim>\<open>fetch\<close> sends as multipart form data: the
  name and current value of every named control.
\<close>

datatype body = FormData "(jsstring \<times> jsstring) list"

record request =
  url :: jsstring
  httpMethod :: jsstring
  requestBody :: body
  headers :: "(jsstring \<times> jsstring) list"

definition entryList :: "field list \<Rightarrow> (jsstring \<times> jsstring) list" where
  "entryList inputs =
     map (\<lambda>input. (name input, fieldValue input)) (filter (\<lambda>input. name input \<noteq> []) inputs)"

text \<open>What the awaited \<^verbatim>\<open>fetch\<close> gives: a rejection, or a response with its status.\<close>

datatype outcome = Rejected | Response nat

definition ok :: "nat \<Rightarrow> bool" where
  "ok status \<longleftrightarrow> 200 \<le> status \<and> status \<le> 299"

definition modifyElement :: "jsstring \<Rightarrow> (element \<Rightarrow> element) \<Rightarrow> page \<Rightarrow> page" where
  "modifyElement ident f p =
     (case elementsById p ident of
        None \<Rightarrow> p
      | Some e \<Rightarrow> p\<lparr>elementsById := (elementsById p)(ident \<mapsto> f e)\<rparr>)"

text \<open>
  \<^verbatim>\<open>showFormMessage\<close>. A missing region makes the first access to it throw a
  \<^verbatim>\<open>TypeError\<close>; what was changed before stays changed.
\<close>

definition showFormMessage :: "jsstring \<Rightarrow> jsstring \<Rightarrow> page \<Rightarrow> exn option \<times> page" where
  "showFormMessage type message p =
     (if elementsById p (js ''form-success'') = None then (Some TypeError, p)
      else
        let p = modifyElement (js ''form-success'')
                  (\<lambda>e. e\<lparr>classList := classList e - {js ''form-success--show''}\<rparr>) p
        in if elementsById p (js ''form-error'') = None then (Some TypeError, p)
           else
             let p = modifyElement (js ''form-error'')
                       (\<lambda>e. e\<lparr>classList := classList e - {js ''form-error-general--show''}\<rparr>) p;
                 p = (if type = js ''success''
                      then modifyElement (js ''form-success'')
                             (\<lambda>e. e\<lparr>textContent := message,
                                    classList := insert (js ''form-success--show'') (classList e)\<rparr>) p
                      else modifyElement (js ''form-error'')
                             (\<lambda>e. e\<lparr>textContent := message,
                                    classList := insert (js ''form-error-general--show'') (classList e)\<rparr>) p);
                 p = p\<lparr>scrolledIntoView := scrolledIntoView p @
                        [js ''form-'' @ (if type = js ''success'' then js ''success'' else js ''error'')]\<rparr>
             in (None, p))"

definition SUCCESS_TEXT :: jsstring where
  "SUCCESS_TEXT = js ''Thank you! We'' @ [0x27] @ js ''ll get back to you within 24 hours.''"

definition FAILURE_TEXT :: jsstring where
  "FAILURE_TEXT = js ''Something went wrong. Please try again or email us directly.''"

text \<open>\<^verbatim>\<open>contactForm.reset()\<close>: every control goes back to its default value.\<close>

definition reset :: "page \<Rightarrow> page" where
  "reset p = p\<lparr>formInputs := map (\<lambda>input. input\<lparr>fieldValue := defaultValue input\<rparr>) (formInputs p)\<rparr>"

text \<open>
  \<^verbatim>\<open>submitForm\<close> up to its \<^verbatim>\<open>await\<close>: the label is saved, the control shows the
  in-progress label and is disabled, and the request is issued. Without a submit control
  the first access to it throws before anything is sent.
\<close>

definition submitForm_begin :: "page \<Rightarrow> exn + (jsstring \<times> request \<times> page)" where
  "submitForm_begin p =
     (let formData = FormData (entryList (formInputs p))
      in case submitButton p of
           None \<Rightarrow> Inl TypeError
         | Some b \<Rightarrow>
             Inr (textContent b,
                  \<lparr>url = action p, httpMethod = js ''POST'', requestBody = formData,
                   headers = [(js ''Accept'', js ''application/json'')]\<rparr>,
                  p\<lparr>submitButton := Some (b\<lparr>textContent := js ''Sending...'', disabled := True\<rparr>)\<rparr>))"

text \<open>
  \<^verbatim>\<open>submitForm\<close> after the \<^verbatim>\<open>await\<close>, on the page as it is when the request completes:
  the \<^verbatim>\<open>try\<close> block, the \<^verbatim>\<open>catch\<close> block for whatever the \<^verbatim>\<open>try\<close> block threw, and
  the \<^verbatim>\<open>finally\<close> block, which runs also when the \<^verbatim>\<open>catch\<close> block throws. The result is
  the exception that leaves the function, if any, and the page. \<^verbatim>\<open>clearFormStorage\<close> is
  the function that \<^verbatim>\<open>initFormPersistence\<close> has stored in \<^verbatim>\<open>window\<close> when the page was
  set up, before any submission.
\<close>

definition submitForm_resume :: "jsstring \<Rightarrow> outcome \<Rightarrow> page \<Rightarrow> exn option \<times> page" where
  "submitForm_resume originalText response p =
     (let (thrown, p) =
            (case response of
               Rejected \<Rightarrow> (Some FetchRejected, p)
             | Response status \<Rightarrow>
                 if ok status then
                   (case showFormMessage (js ''success'') SUCCESS_TEXT p of
                      (Some e, p') \<Rightarrow> (Some e, p')
                    | (None, p') \<Rightarrow> (None, clearFormStorage (reset p')))
                 else (Some SubmissionFailed, p));
          (uncaught, p) =
            (case thrown of
               None \<Rightarrow> (None, p)
             | Some e \<Rightarrow>
                 showFormMessage (js ''error'') FAILURE_TEXT
                   (p\<lparr>console := console p @ [SubmissionError e]\<rparr>));
          p = p\<lparr>submitButton :=
                  map_option (\<lambda>b. b\<lparr>textContent := originalText, disabled := False\<rparr>)
                    (submitButton p)\<rparr>
      in (uncaught, p))"

text \<open>The whole of \<^verbatim>\<open>submitForm\<close>, with the requests it has issued.\<close>

definition submitForm :: "outcome \<Rightarrow> page \<Rightarrow> exn option \<times> request list \<times> page" where
  "submitForm response p =
     (case submitForm_begin p of
        Inl e \<Rightarrow> (Some e, [], p)
      | Inr (originalText, req, p') \<Rightarrow>
          (let (uncaught, p'') = submitForm_resume originalText response p'
           in (uncaught, [req], p'')))"


text \<open>Whether a message region is displayed, read off its class list.\<close>

definition successShown :: "page \<Rightarrow> bool" where
  "successShown p \<longleftrightarrow>
     (case elementsById p (js ''form-success'') of
        None \<Rightarrow> False
      | Some e \<Rightarrow> js ''form-success--show'' \<in> classList e)"

definition failureShown :: "page \<Rightarrow> bool" where
  "failureShown p \<longleftrightarrow>
     (case elementsById p (js ''form-error'') of
        None \<Rightarrow> False
      | Some e \<Rightarrow> js ''form-error-general--show'' \<in> classList e)"


section \<open>Mobile Menu Controller\<close>

text \<open>
  The menu's class list, the toggle control's \<^verbatim>\<open>aria-expanded\<close> attribute and the
  inline styles of the toggle's \<^verbatim>\<open>.nav__toggle-line\<close> children.
\<close>

record line =
  transform :: jsstring
  opacity :: jsstring

record nav =
  menuClassList :: "jsstring set"
  ariaExpanded :: "jsstring option"
  lines :: "line list"

text \<open>
  The three style assignments; with fewer than three lines the first missing one throws,
  after the earlier assignments.
\<close>

fun styleLines :: "jsstring \<Rightarrow> jsstring \<Rightarrow> jsstring \<Rightarrow> line list \<Rightarrow> exn option \<times> line list" where
  "styleLines t0 o1 t2 [] = (Some TypeError, [])"
| "styleLines t0 o1 t2 [l0] = (Some TypeError, [l0\<lparr>transform := t0\<rparr>])"
| "styleLines t0 o1 t2 [l0, l1] =
     (Some TypeError, [l0\<lparr>transform := t0\<rparr>, l1\<lparr>opacity := o1\<rparr>])"
| "styleLines t0 o1 t2 (l0 # l1 # l2 # others) =
     (None, l0\<lparr>transform := t0\<rparr> # l1\<lparr>opacity := o1\<rparr> # l2\<lparr>transform := t2\<rparr> # others)"

definition openMobileNav :: "nav \<Rightarrow> exn option \<times> nav" where
  "openMobileNav n =
     (let n = n\<lparr>menuClassList := insert (js ''nav__menu--open'') (menuClassList n)\<rparr>;
          n = n\<lparr>ariaExpanded := Some (js ''true'')\<rparr>;
          (thrown, ls) = styleLines (js ''rotate(45deg) translate(5px, 5px)'') (js ''0'')
                           (js ''rotate(-45deg) translate(7px, -6px)'') (lines n)
      in (thrown, n\<lparr>lines := ls\<rparr>))"

definition closeMobileNav :: "nav \<Rightarrow> exn option \<times> nav" where
  "closeMobileNav n =
     (let n = n\<lparr>menuClassList := menuClassList n - {js ''nav__menu--open''}\<rparr>;
          n = n\<lparr>ariaExpanded := Some (js ''false'')\<rparr>;
          (thrown, ls) = styleLines [] [] [] (lines n)
      in (thrown, n\<lparr>lines := ls\<rparr>))"

text \<open>
  The four listeners registered by \<^verbatim>\<open>initMobileNavigation\<close> (they exist when both the
  toggle control and the menu do, which is the case modelled here).
\<close>

definition onToggleClick :: "nav \<Rightarrow> exn option \<times> nav" where
  "onToggleClick n =
     (let isOpen = (js ''nav__menu--open'' \<in> menuClassList n)
      in if isOpen then closeMobileNav n else openMobileNav n)"

definition onDocumentClick :: "bool \<Rightarrow> bool \<Rightarrow> nav \<Rightarrow> exn option \<times> nav" where
  "onDocumentClick toggleContainsTarget menuContainsTarget n =
     (if \<not> toggleContainsTarget \<and> \<not> menuContainsTarget then closeMobileNav n else (None, n))"

definition onKeydown :: "jsstring \<Rightarrow> nav \<Rightarrow> exn option \<times> nav" where
  "onKeydown key n = (if key = js ''Escape'' then closeMobileNav n else (None, n))"

definition onResize :: "int \<Rightarrow> nav \<Rightarrow> exn option \<times> nav" where
  "onResize innerWidth n = (if innerWidth > 768 then closeMobileNav n else (None, n))"

text \<open>
  The click listener that \<^verbatim>\<open>initSmoothScrolling\<close> puts on every same-page anchor
  link, as far as the menu is concerned: when the link's target element exists, the
  menu is closed (the scrolling and the focus do not touch the menu; the page has the
  header whose height the listener reads first).
\<close>

definition onAnchorClick :: "bool \<Rightarrow> nav \<Rightarrow> exn option \<times> nav" where
  "onAnchorClick targetElementExists n =
     (if targetElementExists then closeMobileNav n else (None, n))"

text \<open>
  The events that reach the menu. A click carries whether its target lies in the toggle
  control and whether it lies in the menu; it reaches the toggle's listener first when
  the target is inside the toggle, and then the document's listener. A click on a
  same-page anchor link (a link outside the toggle control) carries whether the link's
  target element exists and whether the link lies in the menu; it reaches the link's
  listener and then the document's. An exception thrown by a listener is reported and
  does not stop the dispatch.
\<close>

datatype event = Click bool bool | AnchorClick bool bool | Keydown jsstring | Resize int

fun dispatch :: "event \<Rightarrow> nav \<Rightarrow> nav" where
  "dispatch (Click toggleContainsTarget menuContainsTarget) n =
     (let n = (if toggleContainsTarget then snd (onToggleClick n) else n)
      in snd (onDocumentClick toggleContainsTarget menuContainsTarget n))"
| "dispatch (AnchorClick targetElementExists menuContainsTarget) n =
     (let n = snd (onAnchorClick targetElementExists n)
      in snd (onDocumentClick False menuContainsTarget n))"
| "dispatch (Keydown key) n = snd (onKeydown key n)"
| "dispatch (Resize innerWidth) n = snd (onResize innerWidth n)"

text \<open>The Menu State of the specification, read off the document.\<close>

datatype menu_state = Closed | Open

definition menuState :: "nav \<Rightarrow> menu_state" where
  "menuState n = (if js ''nav__menu--open'' \<in> menuClassList n then Open else Closed)"

text \<open>
  The transition table in the words of the specification: a toggle click flips the
  state, a click outside both the toggle control and the menu, the escape key and a
  resize to a width above 768 force \<open>Closed\<close>, and nothing else changes the state. A
  click on an anchor link is a click like any other: it counts by where it lands.
\<close>

fun spec_transition :: "event \<Rightarrow> menu_state \<Rightarrow> menu_state" where
  "spec_transition (Click True menuContainsTarget) Closed = Open"
| "spec_transition (Click True menuContainsTarget) Open = Closed"
| "spec_transition (Click False False) s = Closed"
| "spec_transition (Click False True) s = s"
| "spec_transition (AnchorClick targetElementExists False) s = Closed"
| "spec_transition (AnchorClick targetElementExists True) s = s"
| "spec_transition (Keydown key) s = (if key = js ''Escape'' then Closed else s)"
| "spec_transition (Resize innerWidth) s = (if innerWidth > 768 then Closed else s)"

text \<open>The accessibility attribute agrees with the Menu State.\<close>

definition agrees :: "nav \<Rightarrow> bool" where
  "agrees n \<longleftrightarrow>
     ariaExpanded n = Some (if menuState n = Open then js ''true'' else js ''false'')"

text \<open>
  Modelled from the spec: the page markup is not part of the sources, and the script
  never sets an initial state; the specification gives the initial Menu State as
  closed. A page is in its initial state when the menu has no open class and the
  attribute says so.
\<close>

definition initialNav :: "nav \<Rightarrow> bool" where
  "initialNav n \<longleftrightarrow>
     js ''nav__menu--open'' \<notin> menuClassList n \<and> ariaExpanded n = Some (js ''false'')"

text \<open>The pages reached from a given one by these events.\<close>

inductive reaches :: "nav \<Rightarrow> nav \<Rightarrow> bool" where
  reaches_start: "reaches n n"
| reaches_step: "reaches n m \<Longrightarrow> reaches n (dispatch e m)"



section \<open>Example pages\<close>

text \<open>Concrete controls and pages on which the theorems below are instantiated.\<close>

definition textInput :: "jsstring \<Rightarrow> jsstring \<Rightarrow> bool \<Rightarrow> field" where
  "textInput nm v req =
     \<lparr>classList = {}, textContent = [], name = nm, fieldValue = v, defaultValue = [],
      required = req, ftype = js ''text'', tagName = js ''INPUT''\<rparr>"

definition emailInput :: "jsstring \<Rightarrow> jsstring \<Rightarrow> bool \<Rightarrow> field" where
  "emailInput nm v req =
     \<lparr>classList = {}, textContent = [], name = nm, fieldValue = v, defaultValue = [],
      required = req, ftype = js ''email'', tagName = js ''INPUT''\<rparr>"

definition textarea :: "jsstring \<Rightarrow> jsstring \<Rightarrow> bool \<Rightarrow> field" where
  "textarea nm v req =
     \<lparr>classList = {}, textContent = [], name = nm, fieldValue = v, defaultValue = [],
      required = req, ftype = js ''textarea'', tagName = js ''TEXTAREA''\<rparr>"

definition blankElement :: element where
  "blankElement = \<lparr>classList = {}, textContent = []\<rparr>"

definition contactPage :: "field list \<Rightarrow> (jsstring \<rightharpoonup> stored) \<Rightarrow> page" where
  "contactPage inputs storage =
     \<lparr>formInputs = inputs,
      elementsById =
        [js ''name-error'' \<mapsto> blankElement, js ''email-error'' \<mapsto> blankElement,
         js ''message-error'' \<mapsto> blankElement, js ''form-success'' \<mapsto> blankElement,
         js ''form-error'' \<mapsto> blankElement],
      submitButton = Some \<lparr>classList = {}, textContent = js ''Send Message'', disabled = False\<rparr>,
      action = js ''https://example.com/contact'',
      formMethod = js ''post'',
      localStorage = storage,
      console = [],
      scrolledIntoView = []\<rparr>"

definition contactFields :: "jsstring \<Rightarrow> jsstring \<Rightarrow> jsstring \<Rightarrow> field list" where
  "contactFields n e m =
     [textInput (js ''name'') n True, emailInput (js ''email'') e True,
      textarea (js ''message'') m True]"



definition alicePage :: page where
  "alicePage = contactPage (contactFields (js ''Alice'') (js ''a@b.com'') []) Map.empty"


text \<open>The same with whitespace around the name.\<close>

definition paddedPage :: page where
  "paddedPage = contactPage (contactFields (js ''  Alice '') (js ''a@b.com'') []) Map.empty"

definition paddedReloadedPage :: page where
  "paddedReloadedPage =
     contactPage (contactFields [] [] []) (localStorage (saveFormData paddedPage))"

text \<open>A page whose form declares the method \<^verbatim>\<open>get\<close>.\<close>

definition getFormPage :: page where
  "getFormPage = alicePage\<lparr>formMethod := js ''get''\<rparr>"




definition duplicateTypedPage :: page where
  "duplicateTypedPage =
     contactPage
       [textInput (js ''name'') (js ''Alice'') True, textInput (js ''name'') (js ''Bob'') True]
       Map.empty"

definition protoPage :: page where
  "protoPage = contactPage [textInput (js ''__proto__'') (js ''Alice'') True] Map.empty"

text \<open>A closed menu with its three toggle lines, and the same menu after a toggle click.\<close>

definition closedNav :: nav where
  "closedNav =
     \<lparr>menuClassList = {js ''nav__menu''}, ariaExpanded = Some (js ''false''),
      lines = replicate 3 \<lparr>transform = [], opacity = []\<rparr>\<rparr>"

definition openedNav :: nav where
  "openedNav = dispatch (Click True False) closedNav"

section \<open>Validation of single fields\<close>

lemma of_char_cu_inject: "(of_char c :: cu) = of_char d \<longleftrightarrow> c = d"
proof
  assume eq: "(of_char c :: cu) = of_char d"
  have small: "(of_char x :: nat) < 65536" for x
  proof -
    have "(of_char x :: nat) mod 256 < 256" by (rule mod_less_divisor) simp
    then have "(of_char x :: nat) < 256" by (simp only: of_char_mod_256)
    then show ?thesis by arith
  qed
  from eq have "(of_nat (of_char c) :: cu) = of_nat (of_char d)"
    by (simp only: of_nat_of_char)
  then have "unat (of_nat (of_char c) :: cu) = unat (of_nat (of_char d) :: cu)"
    by simp
  then have "(of_char c :: nat) = of_char d"
    using small [of c] small [of d] by (simp add: unat_of_nat)
  then show "c = d" by simp
qed simp

lemma js_eq_iff: "js a = js b \<longleftrightarrow> a = b"
proof -
  have "inj (of_char :: char \<Rightarrow> cu)"
    by (rule injI) (simp add: of_char_cu_inject)
  then show ?thesis by (simp add: js_def inj_map_eq_map)
qed

lemma js_append: "js a @ js b = js (a @ b)"
  by (simp add: js_def)

lemma unat_of_char: "unat (of_char c :: cu) = of_char c"
proof -
  have "(of_char c :: nat) mod 256 < 256" by (rule mod_less_divisor) simp
  then have "(of_char c :: nat) < 256" by (simp only: of_char_mod_256)
  then have "(of_char c :: nat) < 65536" by arith
  then have "unat (of_nat (of_char c) :: cu) = of_char c"
    by (simp add: unat_of_nat)
  then show ?thesis by (simp only: of_nat_of_char)
qed

lemma of_char_less_256: "unat (of_char c :: cu) < 256"
proof -
  have "(of_char c :: nat) mod 256 < 256" by (rule mod_less_divisor) simp
  then show ?thesis by (simp only: of_char_mod_256 unat_of_char)
qed

text \<open>
  Code units of ASCII literals are compared as characters, which keeps the evaluation of
  \<open>trim\<close> and of the matcher on literals short.
\<close>

lemma of_char_eq_ascii:
  "(of_char c :: cu) = 0x09 \<longleftrightarrow> c = CHR 0x09"
  "(of_char c :: cu) = 0x0A \<longleftrightarrow> c = CHR 0x0A"
  "(of_char c :: cu) = 0x0B \<longleftrightarrow> c = CHR 0x0B"
  "(of_char c :: cu) = 0x0C \<longleftrightarrow> c = CHR 0x0C"
  "(of_char c :: cu) = 0x0D \<longleftrightarrow> c = CHR 0x0D"
  "(of_char c :: cu) = 0x20 \<longleftrightarrow> c = CHR 0x20"
  "(of_char c :: cu) = 0xA0 \<longleftrightarrow> c = CHR 0xA0"
  "(of_char c :: cu) = 0x40 \<longleftrightarrow> c = CHR 0x40"
  "(of_char c :: cu) = 0x2E \<longleftrightarrow> c = CHR 0x2E"
  using of_char_cu_inject [of c "CHR 0x09"] of_char_cu_inject [of c "CHR 0x0A"]
    of_char_cu_inject [of c "CHR 0x0B"] of_char_cu_inject [of c "CHR 0x0C"]
    of_char_cu_inject [of c "CHR 0x0D"] of_char_cu_inject [of c "CHR 0x20"]
    of_char_cu_inject [of c "CHR 0xA0"] of_char_cu_inject [of c "CHR 0x40"]
    of_char_cu_inject [of c "CHR 0x2E"]
  by simp_all

lemma isWhiteSpace_of_char:
  "isWhiteSpace (of_char c) \<longleftrightarrow>
     c = CHR 0x09 \<or> c = CHR 0x0A \<or> c = CHR 0x0B \<or> c = CHR 0x0C \<or> c = CHR 0x0D
     \<or> c = CHR 0x20 \<or> c = CHR 0xA0"
proof -
  have big: "(of_char c :: cu) \<noteq> k" if "256 \<le> unat k" for k
    using that of_char_less_256 [of c] by auto
  have "(of_char c :: cu) \<notin> {0x1680, 0x2028, 0x2029, 0x202F, 0x205F, 0x3000, 0xFEFF}"
    by (simp add: big)
  moreover have "\<not> (0x2000 \<le> (of_char c :: cu))"
    using of_char_less_256 [of c] by (simp add: word_le_nat_alt)
  ultimately show ?thesis
    by (auto simp add: isWhiteSpace_def of_char_eq_ascii)
qed

lemmas string_eval =
  js_def trim_def isWhiteSpace_of_char of_char_cu_inject of_char_eq_ascii

lemma messages_distinct:
  "REQUIRED_MESSAGE \<noteq> []" "EMAIL_MESSAGE \<noteq> []" "LENGTH_MESSAGE \<noteq> []"
  "REQUIRED_MESSAGE \<noteq> EMAIL_MESSAGE" "REQUIRED_MESSAGE \<noteq> LENGTH_MESSAGE"
  "EMAIL_MESSAGE \<noteq> LENGTH_MESSAGE"
  "EMAIL_MESSAGE \<noteq> REQUIRED_MESSAGE" "LENGTH_MESSAGE \<noteq> REQUIRED_MESSAGE"
  "LENGTH_MESSAGE \<noteq> EMAIL_MESSAGE"
  by (simp_all add: REQUIRED_MESSAGE_def EMAIL_MESSAGE_def LENGTH_MESSAGE_def js_eq_iff)
    (simp_all add: js_def del: of_char_Char)

text \<open>The rule blocks as one decision: the last failing rule gives the message.\<close>

lemma validateField_rules_cases:
  "validateField_rules fld =
     (if tagName fld = js ''TEXTAREA'' \<and> trim (fieldValue fld) \<noteq> []
         \<and> length (trim (fieldValue fld)) < 10
      then (False, LENGTH_MESSAGE)
      else if ftype fld = js ''email'' \<and> trim (fieldValue fld) \<noteq> []
         \<and> \<not> emailRegex_test (trim (fieldValue fld))
      then (False, EMAIL_MESSAGE)
      else if required fld \<and> trim (fieldValue fld) = [] then (False, REQUIRED_MESSAGE)
      else (True, []))"
  by (auto simp add: validateField_rules_def Let_def)

lemma validateField_fst: "fst (validateField fld els) = fst (validateField_rules fld)"
  by (simp add: validateField_def showFieldError_def Let_def split: prod.splits)




lemma showFieldError_own:
  "snd (showFieldError fld message els) (name fld @ js ''-error'') =
     map_option (\<lambda>e. e\<lparr>textContent := message,
        classList := toggle (js ''form-error--show'') (message \<noteq> []) (classList e)\<rparr>)
       (els (name fld @ js ''-error''))"
  by (simp add: showFieldError_def Let_def split: option.splits)

lemma validateField_eq:
  "validateField fld els =
     (fst (validateField_rules fld),
      fst (showFieldError fld (snd (validateField_rules fld)) els),
      snd (showFieldError fld (snd (validateField_rules fld)) els))"
  by (simp add: validateField_def Let_def split: prod.splits)

lemmas example_fields = textInput_def emailInput_def textarea_def

text \<open>
  C1, as stated, at a multiline field that is not required and holds three spaces: the
  value is non-empty and its trimmed length, 0, is under 10, and the field is valid
  with an empty message.
\<close>

theorem validateField_blank_textarea_counterexample:
  "tagName (textarea (js ''message'') (js ''   '') False) = js ''TEXTAREA''
   \<and> fieldValue (textarea (js ''message'') (js ''   '') False) \<noteq> []
   \<and> length (trim (fieldValue (textarea (js ''message'') (js ''   '') False))) < 10
   \<and> validateField_rules (textarea (js ''message'') (js ''   '') False) = (True, [])
   \<and> fst (validateField (textarea (js ''message'') (js ''   '') False) Map.empty)"
  by (simp add: validateField_fst validateField_rules_cases)
    (simp add: example_fields string_eval del: of_char_Char)

text \<open>
  C1 (amended). For every field, \<^verbatim>\<open>validateField\<close> gives the message
  "This field is required." exactly when the field is required and its trimmed value is
  empty; it gives "Please provide more details (at least 10 characters)." exactly when
  the field is multiline and its trimmed value is non-empty and shorter than 10; the
  field is valid exactly when the message is empty, and exactly when none of the three
  rules (required, email shape, minimum length) fails. The message is what the field's
  error region, when there is one, then shows.
\<close>

theorem validateField_verdict:
  "(snd (validateField_rules fld) = REQUIRED_MESSAGE
      \<longleftrightarrow> required fld \<and> trim (fieldValue fld) = [])
   \<and> (snd (validateField_rules fld) = LENGTH_MESSAGE
      \<longleftrightarrow> tagName fld = js ''TEXTAREA'' \<and> trim (fieldValue fld) \<noteq> []
           \<and> length (trim (fieldValue fld)) < 10)
   \<and> (fst (validateField_rules fld) \<longleftrightarrow> snd (validateField_rules fld) = [])
   \<and> (fst (validateField_rules fld) \<longleftrightarrow>
        \<not> (required fld \<and> trim (fieldValue fld) = [])
        \<and> \<not> (ftype fld = js ''email'' \<and> trim (fieldValue fld) \<noteq> []
              \<and> \<not> emailRegex_test (trim (fieldValue fld)))
        \<and> \<not> (tagName fld = js ''TEXTAREA'' \<and> trim (fieldValue fld) \<noteq> []
              \<and> length (trim (fieldValue fld)) < 10))
   \<and> fst (validateField fld els) = fst (validateField_rules fld)
   \<and> snd (snd (validateField fld els)) (name fld @ js ''-error'') =
       map_option
         (\<lambda>e. e\<lparr>textContent := snd (validateField_rules fld),
                 classList := toggle (js ''form-error--show'')
                                (snd (validateField_rules fld) \<noteq> []) (classList e)\<rparr>)
         (els (name fld @ js ''-error''))"
proof -
  have shown: "snd (snd (validateField fld els)) (name fld @ js ''-error'') =
       map_option
         (\<lambda>e. e\<lparr>textContent := snd (validateField_rules fld),
                 classList := toggle (js ''form-error--show'')
                                (snd (validateField_rules fld) \<noteq> []) (classList e)\<rparr>)
         (els (name fld @ js ''-error''))"
    by (simp add: validateField_eq showFieldError_own)
  have verdict: "(snd (validateField_rules fld) = REQUIRED_MESSAGE
      \<longleftrightarrow> required fld \<and> trim (fieldValue fld) = [])
   \<and> (snd (validateField_rules fld) = LENGTH_MESSAGE
      \<longleftrightarrow> tagName fld = js ''TEXTAREA'' \<and> trim (fieldValue fld) \<noteq> []
           \<and> length (trim (fieldValue fld)) < 10)
   \<and> (fst (validateField_rules fld) \<longleftrightarrow> snd (validateField_rules fld) = [])
   \<and> (fst (validateField_rules fld) \<longleftrightarrow>
        \<not> (required fld \<and> trim (fieldValue fld) = [])
        \<and> \<not> (ftype fld = js ''email'' \<and> trim (fieldValue fld) \<noteq> []
              \<and> \<not> emailRegex_test (trim (fieldValue fld)))
        \<and> \<not> (tagName fld = js ''TEXTAREA'' \<and> trim (fieldValue fld) \<noteq> []
              \<and> length (trim (fieldValue fld)) < 10))
   \<and> fst (validateField fld els) = fst (validateField_rules fld)"
    by (auto simp add: validateField_rules_cases validateField_fst
        messages_distinct messages_distinct [symmetric])
  from verdict shown show ?thesis
    by (elim conjE) (intro conjI; assumption)
qed

theorem validateField_verdict_witness:
  "snd (validateField_rules (textarea (js ''message'') (js '' too short '') True))
     = LENGTH_MESSAGE
   \<and> \<not> fst (validateField (textarea (js ''message'') (js '' too short '') True) Map.empty)
   \<and> snd (validateField_rules (textInput (js ''name'') (js ''  '') True)) = REQUIRED_MESSAGE
   \<and> fst (validateField_rules (textInput (js ''name'') (js ''Alice'') True))"
proof -
  let ?m = "textarea (js ''message'') (js '' too short '') True"
  let ?b = "textInput (js ''name'') (js ''  '') True"
  let ?a = "textInput (js ''name'') (js ''Alice'') True"
  have m: "tagName ?m = js ''TEXTAREA''" "trim (fieldValue ?m) = js ''too short''"
    by (simp_all add: example_fields string_eval del: of_char_Char)
  have b: "required ?b" "trim (fieldValue ?b) = []"
    by (simp_all add: example_fields string_eval del: of_char_Char)
  have a: "trim (fieldValue ?a) = js ''Alice''" "ftype ?a = js ''text''"
    "tagName ?a = js ''INPUT''"
    by (simp_all add: example_fields string_eval del: of_char_Char)
  have short: "js ''too short'' \<noteq> [] \<and> length (js ''too short'') < 10"
    and alice: "js ''Alice'' \<noteq> []"
    and tags: "js ''text'' \<noteq> js ''email''" "js ''INPUT'' \<noteq> js ''TEXTAREA''"
    by (simp_all add: js_def)
  show ?thesis
    using validateField_verdict [of ?m Map.empty] validateField_verdict [of ?b Map.empty]
      validateField_verdict [of ?a Map.empty]
    by (auto simp add: m b a short alice tags messages_distinct)
qed


section \<open>The email rule\<close>

lemma rmatch_One:
  "rmatch (One p # as) s \<longleftrightarrow> (\<exists>c w. s = c # w \<and> p c \<and> rmatch as w)"
  by (cases s) auto

lemma rmatch_OneOrMore:
  "rmatch (OneOrMore p # as) s \<longleftrightarrow>
     (\<exists>u w. s = u @ w \<and> u \<noteq> [] \<and> list_all p u \<and> rmatch as w)"
proof (induction s)
  case Nil
  show ?case by simp
next
  case (Cons c cs)
  show ?case
  proof
    assume "rmatch (OneOrMore p # as) (c # cs)"
    then have pc: "p c" and alt: "rmatch (OneOrMore p # as) cs \<or> rmatch as cs"
      by simp_all
    from alt show "\<exists>u w. c # cs = u @ w \<and> u \<noteq> [] \<and> list_all p u \<and> rmatch as w"
    proof
      assume "rmatch (OneOrMore p # as) cs"
      with Cons.IH obtain u w where "cs = u @ w" "list_all p u" "rmatch as w"
        by blast
      with pc have "c # cs = (c # u) @ w \<and> c # u \<noteq> [] \<and> list_all p (c # u) \<and> rmatch as w"
        by simp
      then show ?thesis by blast
    next
      assume "rmatch as cs"
      with pc have "c # cs = [c] @ cs \<and> [c] \<noteq> [] \<and> list_all p [c] \<and> rmatch as cs"
        by simp
      then show ?thesis by blast
    qed
  next
    assume "\<exists>u w. c # cs = u @ w \<and> u \<noteq> [] \<and> list_all p u \<and> rmatch as w"
    then obtain u w where s: "c # cs = u @ w" and u: "u \<noteq> []" "list_all p u"
      and w: "rmatch as w" by blast
    from u(1) obtain d u' where du: "u = d # u'" by (cases u) auto
    with s u have c: "d = c" "cs = u' @ w" "p c" "list_all p u'" by auto
    show "rmatch (OneOrMore p # as) (c # cs)"
    proof (cases "u' = []")
      case True
      with c w show ?thesis by simp
    next
      case False
      with c w have "rmatch (OneOrMore p # as) cs"
        using Cons.IH by blast
      with c show ?thesis by simp
    qed
  qed
qed

text \<open>The matcher of the source accepts exactly the strings of the specified shape.\<close>

lemma emailRegex_test_iff_shape: "emailRegex_test s \<longleftrightarrow> spec_email_shape s"
proof -
  have part: "emailPart u \<longleftrightarrow> u \<noteq> [] \<and> list_all notSpaceOrAt u" for u
    by (simp add: emailPart_def notSpaceOrAt_def [abs_def])
  have "emailRegex_test s \<longleftrightarrow>
      (\<exists>u1 u2 u3. s = u1 @ 0x40 # u2 @ 0x2E # u3
         \<and> emailPart u1 \<and> emailPart u2 \<and> emailPart u3)"
    unfolding emailRegex_test_def emailRegex_def rmatch_OneOrMore rmatch_One part
    by (simp add: ex_simps) blast
  then show ?thesis
    by (simp add: spec_email_shape_def js_def)
qed

lemmas regex_eval = emailRegex_test_def emailRegex_def notSpaceOrAt_def

text \<open>
  C2, as stated, at the values \<open>'' a@b.com''\<close> (a leading space) and the same address
  after a no-break space: the field is trimmed before the check and is accepted,
  although the value contains whitespace and so is not of the specified shape.
\<close>

theorem email_rule_padded_counterexample:
  "fst (validateField_rules (emailInput (js ''email'') (js '' a@b.com'') True))
   \<and> \<not> spec_email_shape (js '' a@b.com'')
   \<and> fst (validateField_rules (emailInput (js ''email'') (js (CHR 0xA0 # ''a@b.com'')) True))
   \<and> \<not> spec_email_shape (js (CHR 0xA0 # ''a@b.com''))"
proof -
  let ?f = "emailInput (js ''email'') (js '' a@b.com'') True"
  let ?g = "emailInput (js ''email'') (js (CHR 0xA0 # ''a@b.com'')) True"
  have f: "ftype ?f = js ''email''" "tagName ?f = js ''INPUT''"
    "trim (fieldValue ?f) = js ''a@b.com''"
    by (simp_all add: example_fields string_eval del: of_char_Char)
  have g: "ftype ?g = js ''email''" "tagName ?g = js ''INPUT''"
    "trim (fieldValue ?g) = js ''a@b.com''"
    by (simp_all add: example_fields string_eval del: of_char_Char)
  have ok: "emailRegex_test (js ''a@b.com'')" "js ''a@b.com'' \<noteq> []"
    "js ''INPUT'' \<noteq> js ''TEXTAREA''"
    by (simp_all add: string_eval regex_eval del: of_char_Char)
  have bad: "\<not> emailRegex_test (js '' a@b.com'')"
    "\<not> emailRegex_test (js (CHR 0xA0 # ''a@b.com''))"
    by (simp_all add: string_eval regex_eval del: of_char_Char)
  have rules: "fst (validateField_rules ?f)" "fst (validateField_rules ?g)"
    by (simp_all add: validateField_rules_cases f g ok)
  from rules bad [unfolded emailRegex_test_iff_shape] show ?thesis
    by simp
qed

text \<open>
  C2 (amended). For every string S, an email-type field whose value S has a non-empty
  trim is accepted exactly when S with its leading and trailing whitespace removed is
  of the shape localpart@domain.tld; a rejection gives the message
  "Please enter a valid email address.". The regular expression itself accepts exactly
  the strings of that shape, and \<open>''a@b.com''\<close> is valid while \<open>''a@b''\<close> and
  \<open>''not-an-email''\<close> are not.
\<close>

theorem email_rule:
  assumes "ftype fld = js ''email''" and "tagName fld \<noteq> js ''TEXTAREA''"
    and "trim (fieldValue fld) \<noteq> []"
  shows "(fst (validateField fld els) \<longleftrightarrow> spec_email_shape (trim (fieldValue fld)))
    \<and> (spec_email_shape (trim (fieldValue fld)) \<longrightarrow> snd (validateField_rules fld) = [])
    \<and> (\<not> spec_email_shape (trim (fieldValue fld))
         \<longrightarrow> snd (validateField_rules fld) = EMAIL_MESSAGE)
    \<and> (emailRegex_test s \<longleftrightarrow> spec_email_shape s)
    \<and> validateField_rules (emailInput nm (js ''a@b.com'') req) = (True, [])
    \<and> validateField_rules (emailInput nm (js ''a@b'') req) = (False, EMAIL_MESSAGE)
    \<and> validateField_rules (emailInput nm (js ''not-an-email'') req) = (False, EMAIL_MESSAGE)"
proof -
  have g1: "fst (validateField fld els) \<longleftrightarrow> spec_email_shape (trim (fieldValue fld))"
    and g2: "spec_email_shape (trim (fieldValue fld)) \<longrightarrow> snd (validateField_rules fld) = []"
    and g3: "\<not> spec_email_shape (trim (fieldValue fld))
         \<longrightarrow> snd (validateField_rules fld) = EMAIL_MESSAGE"
    using assms
    by (simp_all add: validateField_fst validateField_rules_cases emailRegex_test_iff_shape)
  have ex: "validateField_rules (emailInput nm (js ''a@b.com'') req) = (True, [])"
    "validateField_rules (emailInput nm (js ''a@b'') req) = (False, EMAIL_MESSAGE)"
    "validateField_rules (emailInput nm (js ''not-an-email'') req) = (False, EMAIL_MESSAGE)"
    by (simp_all add: validateField_rules_cases)
      (simp_all add: example_fields string_eval regex_eval del: of_char_Char)
  show ?thesis
    by (intro conjI) (rule g1 g2 g3 ex emailRegex_test_iff_shape)+
qed

theorem email_rule_witness:
  "ftype (emailInput (js ''email'') (js '' a@b.com '') True) = js ''email''
   \<and> tagName (emailInput (js ''email'') (js '' a@b.com '') True) \<noteq> js ''TEXTAREA''
   \<and> trim (fieldValue (emailInput (js ''email'') (js '' a@b.com '') True)) = js ''a@b.com''
   \<and> js ''a@b.com'' \<noteq> []
   \<and> fst (validateField (emailInput (js ''email'') (js '' a@b.com '') True) Map.empty)
   \<and> spec_email_shape (js ''a@b.com'')"
proof -
  let ?f = "emailInput (js ''email'') (js '' a@b.com '') True"
  have h: "ftype ?f = js ''email''" "tagName ?f \<noteq> js ''TEXTAREA''"
    "trim (fieldValue ?f) = js ''a@b.com''" "js ''a@b.com'' \<noteq> []"
    by (simp_all add: example_fields string_eval del: of_char_Char)
  have "emailRegex_test (js ''a@b.com'')"
    by (simp add: string_eval regex_eval del: of_char_Char)
  with h email_rule [where fld = ?f and els = Map.empty] show ?thesis
    by simp
qed



section \<open>Validation of the whole form\<close>






lemma contactFields_names:
  "map name (contactFields n e m) = [js ''name'', js ''email'', js ''message'']"
  by (simp add: contactFields_def example_fields)







section \<open>Saving and restoring the snapshot\<close>

lemma map_of_setProperty:
  "map_of (setProperty key v obj) k =
     (if key \<noteq> js ''__proto__'' \<and> k = key then Some v else map_of obj k)"
  by (simp add: setProperty_def update_conv')

lemma map_of_body:
  "map_of (saveFormData_body input formData) k =
     (if trim (fieldValue input) \<noteq> [] \<and> name input \<noteq> js ''__proto__'' \<and> k = name input
      then Some (fieldValue input) else map_of formData k)"
  by (simp add: saveFormData_body_def map_of_setProperty)

lemma body_empty_iff:
  "saveFormData_body input formData = [] \<longleftrightarrow>
     formData = [] \<and> (trim (fieldValue input) = [] \<or> name input = js ''__proto__'')"
  by (auto simp add: saveFormData_body_def setProperty_def)

lemma fold_body_empty_iff:
  "fold saveFormData_body inputs formData = [] \<longleftrightarrow>
     formData = [] \<and>
     (\<forall>f \<in> set inputs. trim (fieldValue f) = [] \<or> name f = js ''__proto__'')"
  by (induction inputs arbitrary: formData) (auto simp add: body_empty_iff)


lemma fold_body_other:
  "k \<notin> name ` set inputs \<Longrightarrow>
     map_of (fold saveFormData_body inputs formData) k = map_of formData k"
proof (induction inputs arbitrary: formData)
  case Nil
  show ?case by simp
next
  case (Cons input rest)
  from Cons.prems have "k \<noteq> name input" and "k \<notin> name ` set rest" by auto
  then show ?case by (simp add: Cons.IH map_of_body)
qed

lemma fold_body_own:
  "distinct (map name inputs) \<Longrightarrow> f \<in> set inputs \<Longrightarrow>
     map_of (fold saveFormData_body inputs formData) (name f) =
       (if trim (fieldValue f) \<noteq> [] \<and> name f \<noteq> js ''__proto__''
        then Some (fieldValue f) else map_of formData (name f))"
proof (induction inputs arbitrary: formData)
  case Nil
  then show ?case by simp
next
  case (Cons input rest)
  show ?case
  proof (cases "input = f")
    case True
    with Cons.prems have "name f \<notin> name ` set rest" by simp
    then show ?thesis
      using True by (simp add: fold_body_other map_of_body)
  next
    case False
    with Cons.prems have in_rest: "f \<in> set rest" and d: "distinct (map name rest)"
      by simp_all
    from in_rest have "name f \<in> name ` set rest" by (rule imageI)
    with Cons.prems have "name input \<noteq> name f" by auto
    then show ?thesis
      using Cons.IH [OF d in_rest] by (simp add: map_of_body)
  qed
qed

lemma saveFormData_eq:
  "saveFormData p =
     (if \<forall>f \<in> set (formInputs p). trim (fieldValue f) = [] \<or> name f = js ''__proto__''
      then p
      else p\<lparr>localStorage := (localStorage p)
              (STORAGE_KEY \<mapsto> Snapshot (fold saveFormData_body (formInputs p) []))\<rparr>)"
proof (cases "fold saveFormData_body (formInputs p) [] = []")
  case True
  then have c: "(\<forall>f \<in> set (formInputs p). trim (fieldValue f) = [] \<or> name f = js ''__proto__'') = True"
    using fold_body_empty_iff [of "formInputs p" "[]"] by blast
  from True have l: "(length (Object_keys (fold saveFormData_body (formInputs p) [])) > 0) = False"
    by (simp add: Object_keys_def)
  show ?thesis
    by (simp only: saveFormData_def Let_def l c if_True if_False)
next
  case False
  then have c: "(\<forall>f \<in> set (formInputs p). trim (fieldValue f) = [] \<or> name f = js ''__proto__'') = False"
    using fold_body_empty_iff [of "formInputs p" "[]"] by blast
  from False have l: "(length (Object_keys (fold saveFormData_body (formInputs p) [])) > 0) = True"
    by (simp add: Object_keys_def)
  show ?thesis
    by (simp only: saveFormData_def Let_def l c if_True if_False)
qed



lemma trim_Nil: "trim [] = []"
  by (simp add: trim_def)

lemma nonblank_nonempty: "trim v \<noteq> [] \<Longrightarrow> v \<noteq> []"
  by (auto simp add: trim_Nil)

lemma loadFormData_Snapshot:
  "localStorage q STORAGE_KEY = Some (Snapshot formData) \<Longrightarrow>
     loadFormData nativeText q =
       q\<lparr>formInputs := map (restoreField nativeText formData) (formInputs q)\<rparr>"
  by (simp add: loadFormData_def)


lemma restoreField_own:
  "map_of formData (name g) = Some v \<Longrightarrow> v \<noteq> [] \<Longrightarrow>
     restoreField nativeText formData g = g\<lparr>fieldValue := v\<rparr>"
  by (simp add: restoreField_def getProperty_def)





lemma alicePage_inputs:
  "formInputs alicePage =
     [textInput (js ''name'') (js ''Alice'') True, emailInput (js ''email'') (js ''a@b.com'') True,
      textarea (js ''message'') [] True]"
  by (simp add: alicePage_def contactPage_def contactFields_def)

lemma alicePage_nonblank:
  "trim (js ''Alice'') = js ''Alice''" "trim (js ''a@b.com'') = js ''a@b.com''"
  "js ''Alice'' \<noteq> []" "js ''a@b.com'' \<noteq> []"
  by (simp_all add: string_eval del: of_char_Char)



text \<open>
  C10 (amended). For a tracked field whose value has a non-empty trim, the tracked
  fields having distinct names and the field's name not being \<^verbatim>\<open>__proto__\<close>, the save
  stores the raw, untrimmed value under the field's name; a later restore from that
  snapshot writes exactly this raw value into every field of that name; and a field
  whose value is blank has no entry in the snapshot.
\<close>

theorem saveFormData_keeps_raw_value:
  assumes "f \<in> set (formInputs p)" and "trim (fieldValue f) \<noteq> []"
    and "distinct (map name (formInputs p))" and "name f \<noteq> js ''__proto__''"
  shows "\<exists>formData.
      localStorage (saveFormData p) STORAGE_KEY = Some (Snapshot formData)
      \<and> map_of formData (name f) = Some (fieldValue f)
      \<and> (\<forall>h \<in> set (formInputs p). trim (fieldValue h) = [] \<longrightarrow>
            map_of formData (name h) = None)
      \<and> (\<forall>q. localStorage q STORAGE_KEY = Some (Snapshot formData) \<longrightarrow>
            length (formInputs (loadFormData nativeText q)) = length (formInputs q)
            \<and> (\<forall>i < length (formInputs q). name (formInputs q ! i) = name f \<longrightarrow>
                  fieldValue (formInputs (loadFormData nativeText q) ! i) = fieldValue f))"
proof -
  let ?d = "fold saveFormData_body (formInputs p) []"
  from assms have "\<not> (\<forall>f \<in> set (formInputs p). trim (fieldValue f) = [] \<or> name f = js ''__proto__'')"
    by blast
  then have "saveFormData p = p\<lparr>localStorage := (localStorage p)(STORAGE_KEY \<mapsto> Snapshot ?d)\<rparr>"
    by (simp only: saveFormData_eq if_False)
  then have stored: "localStorage (saveFormData p) STORAGE_KEY = Some (Snapshot ?d)"
    by simp
  from assms have own: "map_of ?d (name f) = Some (fieldValue f)"
    by (simp add: fold_body_own)
  from assms(3) have blank: "\<forall>h \<in> set (formInputs p). trim (fieldValue h) = [] \<longrightarrow>
      map_of ?d (name h) = None"
    by (simp add: fold_body_own)
  from assms(2) have ne: "fieldValue f \<noteq> []" by (rule nonblank_nonempty)
  have restore: "\<forall>q. localStorage q STORAGE_KEY = Some (Snapshot ?d) \<longrightarrow>
      length (formInputs (loadFormData nativeText q)) = length (formInputs q)
      \<and> (\<forall>i < length (formInputs q). name (formInputs q ! i) = name f \<longrightarrow>
            fieldValue (formInputs (loadFormData nativeText q) ! i) = fieldValue f)"
  proof (intro allI impI conjI)
    fix q :: page
    assume q: "localStorage q STORAGE_KEY = Some (Snapshot ?d)"
    show "length (formInputs (loadFormData nativeText q)) = length (formInputs q)"
      by (simp add: loadFormData_Snapshot [OF q])
    fix i
    assume i: "i < length (formInputs q)" and n: "name (formInputs q ! i) = name f"
    from own n have "map_of ?d (name (formInputs q ! i)) = Some (fieldValue f)" by simp
    from restoreField_own [OF this ne] i
    show "fieldValue (formInputs (loadFormData nativeText q) ! i) = fieldValue f"
      by (simp add: loadFormData_Snapshot [OF q])
  qed
  from stored own blank restore show ?thesis
    by (intro exI [of _ ?d] conjI)
qed


text \<open>
  C10, as stated, on a page with two tracked fields named \<open>name\<close> holding \<open>Alice\<close> and
  \<open>Bob\<close>: the snapshot has the one entry \<open>Bob\<close>, so the raw value of the first field
  is not stored. And on a page whose only field is named \<^verbatim>\<open>__proto__\<close> and holds
  \<open>Alice\<close>: nothing is stored at all.
\<close>

theorem saveFormData_name_clash_counterexample:
  "formInputs duplicateTypedPage =
     [textInput (js ''name'') (js ''Alice'') True, textInput (js ''name'') (js ''Bob'') True]
   \<and> trim (fieldValue (textInput (js ''name'') (js ''Alice'') True)) = js ''Alice''
   \<and> js ''Alice'' \<noteq> []
   \<and> localStorage (saveFormData duplicateTypedPage) STORAGE_KEY =
       Some (Snapshot [(js ''name'', js ''Bob'')])
   \<and> js ''Bob'' \<noteq> js ''Alice''
   \<and> formInputs protoPage = [textInput (js ''__proto__'') (js ''Alice'') True]
   \<and> localStorage (saveFormData protoPage) STORAGE_KEY = None"
proof -
  have inputs: "formInputs duplicateTypedPage =
      [textInput (js ''name'') (js ''Alice'') True, textInput (js ''name'') (js ''Bob'') True]"
    "formInputs protoPage = [textInput (js ''__proto__'') (js ''Alice'') True]"
    by (simp_all add: duplicateTypedPage_def protoPage_def contactPage_def)
  have bob: "trim (js ''Bob'') = js ''Bob''" "js ''Bob'' \<noteq> []"
    "js ''Bob'' \<noteq> js ''Alice''"
    by (simp_all add: string_eval del: of_char_Char)
  have raw: "trim (fieldValue (textInput (js ''name'') (js ''Alice'') True)) = js ''Alice''"
    by (simp add: example_fields alicePage_nonblank)
  have "fold saveFormData_body (formInputs duplicateTypedPage) [] = [(js ''name'', js ''Bob'')]"
    by (simp add: inputs saveFormData_body_def example_fields alicePage_nonblank bob
        setProperty_def js_eq_iff)
  then have clash: "localStorage (saveFormData duplicateTypedPage) STORAGE_KEY =
      Some (Snapshot [(js ''name'', js ''Bob'')])"
    by (simp add: saveFormData_def Object_keys_def)
  have "fold saveFormData_body (formInputs protoPage) [] = []"
    by (simp add: inputs saveFormData_body_def example_fields setProperty_def)
  then have "saveFormData protoPage = protoPage"
    by (simp add: saveFormData_def Object_keys_def)
  then have proto: "localStorage (saveFormData protoPage) STORAGE_KEY = None"
    by (simp add: protoPage_def contactPage_def)
  from inputs raw alicePage_nonblank(3) clash bob(3) proto show ?thesis
    by (intro conjI)
qed



theorem saveFormData_keeps_raw_value_witness:
  "textInput (js ''name'') (js ''  Alice '') True \<in> set (formInputs paddedPage)
   \<and> trim (fieldValue (textInput (js ''name'') (js ''  Alice '') True)) = js ''Alice''
   \<and> js ''Alice'' \<noteq> []
   \<and> distinct (map name (formInputs paddedPage))
   \<and> name (textInput (js ''name'') (js ''  Alice '') True) \<noteq> js ''__proto__''
   \<and> fieldValue (formInputs (loadFormData (\<lambda>key. []) paddedReloadedPage) ! 0)
       = js ''  Alice ''"
proof -
  define f where "f = textInput (js ''name'') (js ''  Alice '') True"
  have padded: "trim (js ''  Alice '') = js ''Alice''"
    by (simp add: string_eval del: of_char_Char)
  have f: "f \<in> set (formInputs paddedPage)"
    "trim (fieldValue f) = js ''Alice''" "js ''Alice'' \<noteq> []"
    "name f \<noteq> js ''__proto__''" "name f = js ''name''" "fieldValue f = js ''  Alice ''"
    by (simp_all add: f_def paddedPage_def contactPage_def contactFields_def example_fields
        padded alicePage_nonblank js_eq_iff)
  have d: "distinct (map name (formInputs paddedPage))"
    by (simp add: paddedPage_def contactPage_def contactFields_names js_eq_iff)
  have first: "0 < length (formInputs paddedReloadedPage)"
    "name (formInputs paddedReloadedPage ! 0) = name f"
    by (simp_all add: paddedReloadedPage_def contactPage_def contactFields_def f(5))
      (simp add: example_fields)
  from f have nonblank: "trim (fieldValue f) \<noteq> []" by simp
  from saveFormData_keeps_raw_value [OF f(1) nonblank d f(4), of "\<lambda>key. []"]
  obtain formData where
    stored: "localStorage (saveFormData paddedPage) STORAGE_KEY = Some (Snapshot formData)"
    and restore: "\<forall>q. localStorage q STORAGE_KEY = Some (Snapshot formData) \<longrightarrow>
        length (formInputs (loadFormData (\<lambda>key. []) q)) = length (formInputs q)
        \<and> (\<forall>i < length (formInputs q). name (formInputs q ! i) = name f \<longrightarrow>
              fieldValue (formInputs (loadFormData (\<lambda>key. []) q) ! i) = fieldValue f)"
    by blast
  from stored have "localStorage paddedReloadedPage STORAGE_KEY = Some (Snapshot formData)"
    by (simp add: paddedReloadedPage_def contactPage_def)
  with restore first
  have "fieldValue (formInputs (loadFormData (\<lambda>key. []) paddedReloadedPage) ! 0)
      = fieldValue f"
    by blast
  with f d show ?thesis
    by (simp add: f_def [symmetric])
qed


section \<open>Submitting the form\<close>

lemma region_names_distinct:
  "js ''form-success'' \<noteq> js ''form-error''" "js ''form-error'' \<noteq> js ''form-success''"
  "js ''error'' \<noteq> js ''success''"
  by (simp_all add: js_eq_iff)

lemma showFormMessage_error:
  assumes "elementsById p (js ''form-success'') = Some successElement"
    and "elementsById p (js ''form-error'') = Some errorElement"
  shows "showFormMessage (js ''error'') message p =
    (None, p\<lparr>elementsById := (elementsById p)
        (js ''form-success'' \<mapsto>
           successElement\<lparr>classList := classList successElement - {js ''form-success--show''}\<rparr>,
         js ''form-error'' \<mapsto>
           errorElement\<lparr>textContent := message,
             classList := insert (js ''form-error-general--show'') (classList errorElement)\<rparr>),
       scrolledIntoView := scrolledIntoView p @ [js ''form-error'']\<rparr>)"
  using assms
  by (simp add: showFormMessage_def modifyElement_def region_names_distinct Let_def js_append)



text \<open>What \<^verbatim>\<open>submitForm\<close> does after the request failed, both message regions being there.\<close>

lemma submitForm_resume_failure:
  assumes "elementsById p (js ''form-success'') = Some successElement"
    and "elementsById p (js ''form-error'') = Some errorElement"
    and "response = Rejected \<or> (\<exists>status. response = Response status \<and> \<not> ok status)"
  shows "\<exists>e. submitForm_resume originalText response p =
    (None, p\<lparr>elementsById := (elementsById p)
        (js ''form-success'' \<mapsto>
           successElement\<lparr>classList := classList successElement - {js ''form-success--show''}\<rparr>,
         js ''form-error'' \<mapsto>
           errorElement\<lparr>textContent := FAILURE_TEXT,
             classList := insert (js ''form-error-general--show'') (classList errorElement)\<rparr>),
       submitButton := map_option (\<lambda>b. b\<lparr>textContent := originalText, disabled := False\<rparr>)
                         (submitButton p),
       console := console p @ [SubmissionError e],
       scrolledIntoView := scrolledIntoView p @ [js ''form-error'']\<rparr>)"
proof -
  have logged: "elementsById (p\<lparr>console := console p @ [SubmissionError e]\<rparr>) = elementsById p" for e
    by simp
  from assms(3) show ?thesis
  proof
    assume "response = Rejected"
    then show ?thesis
      using assms(1,2)
      by (intro exI [of _ FetchRejected])
        (simp add: submitForm_resume_def showFormMessage_error [where p = "p\<lparr>console := console p @ [SubmissionError FetchRejected]\<rparr>"])
  next
    assume "\<exists>status. response = Response status \<and> \<not> ok status"
    then show ?thesis
      using assms(1,2)
      by (intro exI [of _ SubmissionFailed])
        (auto simp add: submitForm_resume_def showFormMessage_error [where p = "p\<lparr>console := console p @ [SubmissionError SubmissionFailed]\<rparr>"])
  qed
qed



lemma showFormMessage_button:
  "submitButton (snd (showFormMessage type message p)) = submitButton p"
  by (simp add: showFormMessage_def modifyElement_def Let_def split: option.splits)

lemma submitForm_resume_button:
  "submitButton (snd (submitForm_resume originalText response p)) =
     map_option (\<lambda>b. b\<lparr>textContent := originalText, disabled := False\<rparr>) (submitButton p)"
proof -
  have shown: "submitButton (snd (showFormMessage type message q)) = submitButton q"
    for type message q
    by (rule showFormMessage_button)
  have pair: "submitButton q' = submitButton q"
    if "showFormMessage type message q = (u, q')" for type message q u q'
    using shown [of type message q] that by simp
  show ?thesis
    by (auto simp add: submitForm_resume_def reset_def clearFormStorage_def Let_def
        split: outcome.splits prod.splits option.splits dest!: pair)
qed

lemma submitForm_begin_Some:
  "submitButton p = Some b \<Longrightarrow>
     submitForm_begin p =
       Inr (textContent b,
            \<lparr>url = action p, httpMethod = js ''POST'',
             requestBody = FormData (entryList (formInputs p)),
             headers = [(js ''Accept'', js ''application/json'')]\<rparr>,
            p\<lparr>submitButton := Some (b\<lparr>textContent := js ''Sending...'', disabled := True\<rparr>)\<rparr>)"
  by (simp add: submitForm_begin_def)

lemma submitForm_Some:
  "submitButton p = Some b \<Longrightarrow>
     submitForm response p =
       (fst (submitForm_resume (textContent b) response
              (p\<lparr>submitButton := Some (b\<lparr>textContent := js ''Sending...'', disabled := True\<rparr>)\<rparr>)),
        [\<lparr>url = action p, httpMethod = js ''POST'',
          requestBody = FormData (entryList (formInputs p)),
          headers = [(js ''Accept'', js ''application/json'')]\<rparr>],
        snd (submitForm_resume (textContent b) response
              (p\<lparr>submitButton := Some (b\<lparr>textContent := js ''Sending...'', disabled := True\<rparr>)\<rparr>)))"
  by (simp add: submitForm_def submitForm_begin_Some split: prod.splits)

text \<open>
  C6. With a submit control on the page: up to the \<^verbatim>\<open>await\<close>, \<^verbatim>\<open>submitForm\<close> saves the
  control's label, shows the in-progress label and disables the control; when the
  request completes, on whatever page and with whatever outcome (a response of any
  status, or a rejection), the control gets the saved label back and is enabled.
\<close>

theorem submitForm_restores_button:
  assumes "submitButton p = Some b"
  shows "\<exists>req p1.
      submitForm_begin p = Inr (textContent b, req, p1)
      \<and> submitButton p1 = Some (b\<lparr>textContent := js ''Sending...'', disabled := True\<rparr>)
      \<and> (\<forall>response q b1. submitButton q = Some b1 \<longrightarrow>
            submitButton (snd (submitForm_resume (textContent b) response q)) =
              Some (b1\<lparr>textContent := textContent b, disabled := False\<rparr>))
      \<and> (\<forall>response.
            submitButton (snd (snd (submitForm response p))) =
              Some (b\<lparr>textContent := textContent b, disabled := False\<rparr>))"
  using assms
  by (simp add: submitForm_begin_Some submitForm_Some submitForm_resume_button)

text \<open>
  C5 (amended). The one request that \<^verbatim>\<open>submitForm\<close> issues goes to the form's
  \<^verbatim>\<open>action\<close> with the method \<^verbatim>\<open>POST\<close>, whatever method the form declares, a form-data
  body of the current field values and the header \<^verbatim>\<open>Accept: application/json\<close>.
\<close>

theorem submitForm_request:
  assumes "submitButton p = Some b"
  shows "fst (snd (submitForm response p)) =
      [\<lparr>url = action p, httpMethod = js ''POST'',
        requestBody = FormData (entryList (formInputs p)),
        headers = [(js ''Accept'', js ''application/json'')]\<rparr>]"
  using assms by (simp add: submitForm_Some)

text \<open>
  C4. With both message regions on the page and a request that was rejected or answered
  with a status outside 200..299: \<^verbatim>\<open>submitForm\<close> ends without an exception, the
  tracked fields and the local storage are as they were, the failure region shows the
  generic failure text and the success region is not shown. This holds for the page at
  the time the request completes, and for the whole of \<^verbatim>\<open>submitForm\<close> when a submit
  control exists. \<^verbatim>\<open>showFormMessage\<close> shows exactly one of the two regions.
\<close>

theorem submitForm_failure:
  assumes "elementsById p (js ''form-success'') = Some successElement"
    and "elementsById p (js ''form-error'') = Some errorElement"
    and "response = Rejected \<or> (\<exists>status. response = Response status \<and> \<not> ok status)"
  shows "(\<exists>p'. submitForm_resume originalText response p = (None, p')
            \<and> formInputs p' = formInputs p \<and> localStorage p' = localStorage p
            \<and> failureShown p' \<and> \<not> successShown p'
            \<and> map_option textContent (elementsById p' (js ''form-error'')) = Some FAILURE_TEXT)
    \<and> (\<forall>b. submitButton p = Some b \<longrightarrow>
          (\<exists>req p'. submitForm response p = (None, [req], p')
            \<and> formInputs p' = formInputs p \<and> localStorage p' = localStorage p
            \<and> failureShown p' \<and> \<not> successShown p'
            \<and> map_option textContent (elementsById p' (js ''form-error'')) = Some FAILURE_TEXT))
    \<and> (\<forall>type message. \<exists>p'. showFormMessage type message p = (None, p')
            \<and> (successShown p' \<longleftrightarrow> type = js ''success'')
            \<and> (failureShown p' \<longleftrightarrow> type \<noteq> js ''success''))"
proof (intro conjI allI impI)
  from submitForm_resume_failure [OF assms, of originalText]
  show "\<exists>p'. submitForm_resume originalText response p = (None, p')
            \<and> formInputs p' = formInputs p \<and> localStorage p' = localStorage p
            \<and> failureShown p' \<and> \<not> successShown p'
            \<and> map_option textContent (elementsById p' (js ''form-error'')) = Some FAILURE_TEXT"
    by (auto simp add: failureShown_def successShown_def region_names_distinct)
next
  fix b
  assume b: "submitButton p = Some b"
  let ?p1 = "p\<lparr>submitButton := Some (b\<lparr>textContent := js ''Sending...'', disabled := True\<rparr>)\<rparr>"
  have r: "elementsById ?p1 (js ''form-success'') = Some successElement"
    "elementsById ?p1 (js ''form-error'') = Some errorElement"
    using assms(1,2) by simp_all
  from submitForm_resume_failure [OF r assms(3), of "textContent b"]
  show "\<exists>req p'. submitForm response p = (None, [req], p')
            \<and> formInputs p' = formInputs p \<and> localStorage p' = localStorage p
            \<and> failureShown p' \<and> \<not> successShown p'
            \<and> map_option textContent (elementsById p' (js ''form-error'')) = Some FAILURE_TEXT"
    by (auto simp add: submitForm_Some [OF b] failureShown_def successShown_def
        region_names_distinct)
next
  fix type message
  show "\<exists>p'. showFormMessage type message p = (None, p')
            \<and> (successShown p' \<longleftrightarrow> type = js ''success'')
            \<and> (failureShown p' \<longleftrightarrow> type \<noteq> js ''success'')"
    using assms(1,2)
    by (simp add: showFormMessage_def modifyElement_def region_names_distinct Let_def
        failureShown_def successShown_def)
qed


lemma alicePage_regions:
  "elementsById alicePage (js ''form-success'') = Some blankElement"
  "elementsById alicePage (js ''form-error'') = Some blankElement"
  by (simp_all add: alicePage_def contactPage_def js_eq_iff)

lemma alicePage_button:
  "submitButton alicePage =
     Some \<lparr>classList = {}, textContent = js ''Send Message'', disabled = False\<rparr>"
  by (simp add: alicePage_def contactPage_def)

theorem submitForm_failure_witness:
  "elementsById alicePage (js ''form-success'') = Some blankElement
   \<and> elementsById alicePage (js ''form-error'') = Some blankElement
   \<and> \<not> ok 500
   \<and> fst (submitForm (Response 500) alicePage) = None
   \<and> formInputs (snd (snd (submitForm (Response 500) alicePage))) = formInputs alicePage
   \<and> localStorage (snd (snd (submitForm (Response 500) alicePage))) = localStorage alicePage
   \<and> failureShown (snd (snd (submitForm (Response 500) alicePage)))
   \<and> \<not> successShown (snd (snd (submitForm (Response 500) alicePage)))
   \<and> fst (submitForm Rejected alicePage) = None
   \<and> failureShown (snd (snd (submitForm Rejected alicePage)))
   \<and> \<not> successShown (snd (snd (submitForm Rejected alicePage)))"
proof -
  have bad: "\<not> ok 500" by (simp add: ok_def)
  then have failed: "Response 500 = Rejected \<or> (\<exists>status. Response 500 = Response status \<and> \<not> ok status)"
    by simp
  have rejected: "Rejected = Rejected \<or> (\<exists>status. Rejected = Response status \<and> \<not> ok status)"
    by simp
  from submitForm_failure [OF alicePage_regions failed] alicePage_button
  have a: "fst (submitForm (Response 500) alicePage) = None
    \<and> formInputs (snd (snd (submitForm (Response 500) alicePage))) = formInputs alicePage
    \<and> localStorage (snd (snd (submitForm (Response 500) alicePage))) = localStorage alicePage
    \<and> failureShown (snd (snd (submitForm (Response 500) alicePage)))
    \<and> \<not> successShown (snd (snd (submitForm (Response 500) alicePage)))"
    by fastforce
  from submitForm_failure [OF alicePage_regions rejected] alicePage_button
  have b: "fst (submitForm Rejected alicePage) = None
    \<and> failureShown (snd (snd (submitForm Rejected alicePage)))
    \<and> \<not> successShown (snd (snd (submitForm Rejected alicePage)))"
    by fastforce
  from a b bad alicePage_regions show ?thesis by simp
qed

text \<open>
  C5, as stated, on a page whose form declares the method \<^verbatim>\<open>get\<close>: the request is
  sent with \<^verbatim>\<open>POST\<close>.
\<close>

theorem submitForm_method_counterexample:
  "formMethod getFormPage = js ''get''
   \<and> map httpMethod (fst (snd (submitForm (Response 200) getFormPage))) = [js ''POST'']
   \<and> js ''POST'' \<noteq> js ''get''"
proof -
  have "submitButton getFormPage =
      Some \<lparr>classList = {}, textContent = js ''Send Message'', disabled = False\<rparr>"
    by (simp add: getFormPage_def alicePage_button)
  then show ?thesis
    by (simp add: submitForm_Some getFormPage_def js_eq_iff)
qed

theorem submitForm_request_witness:
  "submitButton alicePage =
     Some \<lparr>classList = {}, textContent = js ''Send Message'', disabled = False\<rparr>
   \<and> fst (snd (submitForm (Response 200) alicePage)) =
      [\<lparr>url = js ''https://example.com/contact'', httpMethod = js ''POST'',
        requestBody = FormData [(js ''name'', js ''Alice''), (js ''email'', js ''a@b.com''),
                                (js ''message'', [])],
        headers = [(js ''Accept'', js ''application/json'')]\<rparr>]"
proof -
  have "action alicePage = js ''https://example.com/contact''"
    by (simp add: alicePage_def contactPage_def)
  moreover have "entryList (formInputs alicePage) =
      [(js ''name'', js ''Alice''), (js ''email'', js ''a@b.com''), (js ''message'', [])]"
    by (simp add: alicePage_inputs entryList_def example_fields)
      (simp add: js_def)
  ultimately show ?thesis
    using submitForm_request [OF alicePage_button, of "Response 200"] alicePage_button
    by simp
qed

theorem submitForm_restores_button_witness:
  "submitButton alicePage =
     Some \<lparr>classList = {}, textContent = js ''Send Message'', disabled = False\<rparr>
   \<and> (\<exists>req p1. submitForm_begin alicePage = Inr (js ''Send Message'', req, p1)
         \<and> submitButton p1 =
             Some \<lparr>classList = {}, textContent = js ''Sending...'', disabled = True\<rparr>)
   \<and> submitButton (snd (snd (submitForm (Response 200) alicePage))) =
       Some \<lparr>classList = {}, textContent = js ''Send Message'', disabled = False\<rparr>
   \<and> submitButton (snd (snd (submitForm (Response 404) alicePage))) =
       Some \<lparr>classList = {}, textContent = js ''Send Message'', disabled = False\<rparr>
   \<and> submitButton (snd (snd (submitForm Rejected alicePage))) =
       Some \<lparr>classList = {}, textContent = js ''Send Message'', disabled = False\<rparr>"
proof -
  from submitForm_restores_button [OF alicePage_button]
  obtain req p1 where
    inflight: "submitForm_begin alicePage = Inr (js ''Send Message'', req, p1)"
      "submitButton p1 = Some \<lparr>classList = {}, textContent = js ''Sending...'', disabled = True\<rparr>"
    and completed: "\<forall>response. submitButton (snd (snd (submitForm response alicePage))) =
      Some \<lparr>classList = {}, textContent = js ''Send Message'', disabled = False\<rparr>"
    by auto
  from inflight have "\<exists>req p1. submitForm_begin alicePage = Inr (js ''Send Message'', req, p1)
      \<and> submitButton p1 =
          Some \<lparr>classList = {}, textContent = js ''Sending...'', disabled = True\<rparr>"
    by blast
  with completed alicePage_button show ?thesis by simp
qed


section \<open>The persistence round trip\<close>









section \<open>The menu as a state machine\<close>

lemma closeMobileNav_state:
  "menuClassList (snd (closeMobileNav n)) = menuClassList n - {js ''nav__menu--open''}"
  "ariaExpanded (snd (closeMobileNav n)) = Some (js ''false'')"
  by (simp_all add: closeMobileNav_def Let_def split: prod.splits)

lemma openMobileNav_state:
  "menuClassList (snd (openMobileNav n)) = insert (js ''nav__menu--open'') (menuClassList n)"
  "ariaExpanded (snd (openMobileNav n)) = Some (js ''true'')"
  by (simp_all add: openMobileNav_def Let_def split: prod.splits)

lemma closeMobileNav_closed:
  "menuState (snd (closeMobileNav n)) = Closed" "agrees (snd (closeMobileNav n))"
  by (simp_all add: menuState_def agrees_def closeMobileNav_state)

lemma openMobileNav_open:
  "menuState (snd (openMobileNav n)) = Open" "agrees (snd (openMobileNav n))"
  by (simp_all add: menuState_def agrees_def openMobileNav_state)

lemma onToggleClick_flips:
  "menuState (snd (onToggleClick n)) = (if menuState n = Open then Closed else Open)"
  "agrees (snd (onToggleClick n))"
  by (simp_all add: onToggleClick_def Let_def closeMobileNav_closed openMobileNav_open)
    (simp add: menuState_def)

lemma dispatch_state:
  "menuState (dispatch e n) = spec_transition e (menuState n)"
  if "\<forall>menuContainsTarget. e \<noteq> AnchorClick True menuContainsTarget"
proof (cases e)
  case (Click toggleContainsTarget menuContainsTarget)
  then show ?thesis
    by (cases toggleContainsTarget; cases menuContainsTarget; cases "menuState n")
      (simp_all add: onDocumentClick_def onToggleClick_flips closeMobileNav_closed)
next
  case (AnchorClick targetElementExists menuContainsTarget)
  with that have "\<not> targetElementExists" by auto
  with AnchorClick show ?thesis
    by (cases menuContainsTarget)
      (simp_all add: onDocumentClick_def onAnchorClick_def closeMobileNav_closed)
next
  case (Keydown key)
  then show ?thesis by (simp add: onKeydown_def closeMobileNav_closed)
next
  case (Resize innerWidth)
  then show ?thesis by (simp add: onResize_def closeMobileNav_closed)
qed

lemma dispatch_anchor:
  "menuState (dispatch (AnchorClick True menuContainsTarget) n) = Closed"
  by (cases menuContainsTarget)
    (simp_all add: onDocumentClick_def onAnchorClick_def closeMobileNav_closed
      closeMobileNav_state menuState_def)

lemma dispatch_agrees: "dispatch e n = n \<or> agrees (dispatch e n)"
proof (cases e)
  case (Click toggleContainsTarget menuContainsTarget)
  then show ?thesis
    by (simp add: onDocumentClick_def onToggleClick_flips closeMobileNav_closed)
next
  case (AnchorClick targetElementExists menuContainsTarget)
  then show ?thesis
    by (simp add: onDocumentClick_def onAnchorClick_def closeMobileNav_closed)
next
  case (Keydown key)
  then show ?thesis by (simp add: onKeydown_def closeMobileNav_closed)
next
  case (Resize innerWidth)
  then show ?thesis by (simp add: onResize_def closeMobileNav_closed)
qed

lemma reaches_agrees: "reaches n0 n \<Longrightarrow> agrees n0 \<Longrightarrow> agrees n"
proof (induction rule: reaches.induct)
  case (reaches_start n)
  then show ?case .
next
  case (reaches_step n m e)
  then have "agrees m" by simp
  with dispatch_agrees [of e m] show ?case by auto
qed

text \<open>
  C9, as stated, on an open menu: a click on a same-page anchor link inside the menu is
  none of the four listed transitions (it is not outside the menu), so the state should
  stay open; the link's listener closes the menu.
\<close>

theorem menu_anchor_click_counterexample:
  "menuState openedNav = Open
   \<and> spec_transition (AnchorClick True True) (menuState openedNav) = Open
   \<and> menuState (dispatch (AnchorClick True True) openedNav) = Closed"
proof -
  have "menuState openedNav = Open"
    by (simp add: openedNav_def onDocumentClick_def onToggleClick_flips)
      (simp add: menuState_def closedNav_def js_eq_iff)
  then show ?thesis by (simp add: dispatch_anchor del: dispatch.simps)
qed

text \<open>
  C9 (amended). The Menu State has the two values closed and open and is closed on the
  initial page. Its transitions are: a toggle click flips it; a click outside both the
  toggle control and the menu, the escape key and a resize to a width above 768 force
  closed; and a click on a same-page anchor link whose target exists forces closed,
  wherever the link is. Every other event leaves it as it is. An event either changes
  nothing or leaves the toggle control's \<^verbatim>\<open>aria-expanded\<close> attribute equal to the
  state; agreement is kept by every event, and holds on every page reached from an
  initial one.
\<close>

theorem menu_state_machine:
  "menuState (dispatch e n) =
     (case e of
        AnchorClick True menuContainsTarget \<Rightarrow> Closed
      | _ \<Rightarrow> spec_transition e (menuState n))
   \<and> (dispatch e n = n \<or> agrees (dispatch e n))
   \<and> (agrees n \<longrightarrow> agrees (dispatch e n))
   \<and> (initialNav n \<longrightarrow> menuState n = Closed \<and> agrees n)
   \<and> (initialNav n \<and> reaches n m \<longrightarrow> agrees m)"
proof -
  have state: "menuState (dispatch e n) =
     (case e of
        AnchorClick True menuContainsTarget \<Rightarrow> Closed
      | _ \<Rightarrow> spec_transition e (menuState n))"
  proof (cases "\<exists>menuContainsTarget. e = AnchorClick True menuContainsTarget")
    case True
    then show ?thesis by (auto simp add: dispatch_anchor simp del: dispatch.simps)
  next
    case False
    then have "menuState (dispatch e n) = spec_transition e (menuState n)"
      by (intro dispatch_state) simp
    with False show ?thesis
      by (auto split: event.splits bool.splits)
  qed
  have init: "initialNav n \<longrightarrow> menuState n = Closed \<and> agrees n"
    by (simp add: initialNav_def menuState_def agrees_def)
  have keep: "agrees n \<longrightarrow> agrees (dispatch e n)"
    using dispatch_agrees [of e n] by auto
  have reach: "initialNav n \<and> reaches n m \<longrightarrow> agrees m"
    using init reaches_agrees [of n m] by blast
  from state dispatch_agrees [of e n] keep init reach
  show ?thesis by (intro conjI)
qed

theorem menu_state_machine_witness:
  "initialNav closedNav
   \<and> menuState closedNav = Closed
   \<and> menuState openedNav = Open
   \<and> ariaExpanded openedNav = Some (js ''true'')
   \<and> menuState (dispatch (Click False False) openedNav) = Closed
   \<and> ariaExpanded (dispatch (Click False False) openedNav) = Some (js ''false'')
   \<and> menuState (dispatch (Click False True) openedNav) = Open
   \<and> menuState (dispatch (Keydown (js ''Escape'')) openedNav) = Closed
   \<and> ariaExpanded (dispatch (Keydown (js ''Escape'')) openedNav) = Some (js ''false'')
   \<and> menuState (dispatch (Resize 1024) openedNav) = Closed
   \<and> ariaExpanded (dispatch (Resize 1024) openedNav) = Some (js ''false'')
   \<and> menuState (dispatch (Resize 768) openedNav) = Open
   \<and> menuState (dispatch (Click True False) openedNav) = Closed
   \<and> menuState (dispatch (AnchorClick True True) openedNav) = Closed
   \<and> ariaExpanded (dispatch (AnchorClick True True) openedNav) = Some (js ''false'')"
proof -
  have init: "initialNav closedNav"
    by (simp add: initialNav_def closedNav_def js_eq_iff)
  note m = menu_state_machine
  from m [of "Click True False" closedNav closedNav] init
  have closed: "menuState closedNav = Closed" and opened: "menuState openedNav = Open"
    by (simp_all add: openedNav_def)
  have reach: "reaches closedNav openedNav"
    unfolding openedNav_def by (rule reaches_step) (rule reaches_start)
  have aria: "ariaExpanded x = Some (js ''true'')" if "agrees x" "menuState x = Open" for x
    using that by (simp add: agrees_def)
  have aria_closed: "ariaExpanded x = Some (js ''false'')" if "agrees x" "menuState x = Closed" for x
    using that by (simp add: agrees_def)
  from m [of "Click True False" closedNav openedNav] init reach
  have ag: "agrees openedNav" by simp
  have step: "menuState (dispatch e openedNav) =
      (case e of AnchorClick True menuContainsTarget \<Rightarrow> Closed | _ \<Rightarrow> spec_transition e Open)
      \<and> agrees (dispatch e openedNav)" for e
    using m [of e openedNav openedNav] ag
    by (simp add: opened cong: event.case_cong bool.case_cong)
  show ?thesis
    using init closed opened aria [OF ag opened]
      step [of "Click False False"] step [of "Click False True"]
      step [of "Keydown (js ''Escape'')"] step [of "Resize 1024"] step [of "Resize 768"]
      step [of "Click True False"] step [of "AnchorClick True True"]
    by (simp add: aria_closed)
qed


end
